theory Spec2Isabelle
  imports Complex_Main "HOL-Library.Multiset"
begin

section \<open>Health states and errors\<close>

text \<open>
  Modelled from the spec: the enumeration \<^verbatim>\<open>InputData.HealthStates\<close>, which
  \<^verbatim>\<open>MarkovClasses.py\<close> imports from a module that is not available. The spec describes it as
  "an enumerated value from a fixed, ordered set of named states (e.g. WELL, STROKE,
  STROKE_DEAD, NATURAL_DEATH, ...); each state has an integer index used to address
  rows/columns of the rate matrix". The four members are the ones the source refers to;
  their indices follow the order in which the spec lists them.
\<close>

datatype HealthStates = WELL | STROKE | STROKE_DEAD | NATURAL_DEATH

fun HealthStates_value :: "HealthStates \<Rightarrow> int" where
  "HealthStates_value WELL = 0"
| "HealthStates_value STROKE = 1"
| "HealthStates_value STROKE_DEAD = 2"
| "HealthStates_value NATURAL_DEATH = 3"

text \<open>
  \<^verbatim>\<open>HealthStates(i)\<close>: the lookup of a member by its value; Python raises
  \<^verbatim>\<open>ValueError\<close> when no member has the value, which is \<open>None\<close> here.
\<close>

definition HealthStates_of_value :: "int \<Rightarrow> HealthStates option" where
  "HealthStates_of_value i =
     find (\<lambda>s. HealthStates_value s = i) [WELL, STROKE, STROKE_DEAD, NATURAL_DEATH]"

datatype error = ValueError | ZeroDivisionError

section \<open>The patient's state monitor\<close>

record PatientStateMonitor =
  currentState :: HealthStates
  survivalTime :: "real option"
  nStrokes :: int

definition PatientStateMonitor_init :: PatientStateMonitor where
  "PatientStateMonitor_init =
     \<lparr>currentState = WELL, survivalTime = None, nStrokes = 0\<rparr>"

definition update :: "real \<Rightarrow> HealthStates \<Rightarrow> PatientStateMonitor \<Rightarrow> PatientStateMonitor" where
  "update time new_state m =
     (let m1 = (if new_state \<in> {STROKE_DEAD, NATURAL_DEATH}
                then m\<lparr>survivalTime := Some time\<rparr> else m);
          m2 = (if new_state \<in> {STROKE, STROKE_DEAD}
                then m1\<lparr>nStrokes := nStrokes m1 + 1\<rparr> else m1)
      in m2\<lparr>currentState := new_state\<rparr>)"

section \<open>The patient and its simulation loop\<close>

text \<open>
  \<^verbatim>\<open>Markov.Gillespie\<close> and the random number generator belong to libraries, so the
  stepper is a parameter: \<open>G i g\<close> is what
  \<^verbatim>\<open>gillespie.get_next_state(current_state_index=i, rng=g)\<close> returns, together with the
  generator after the draws. \<open>None\<close> stands for \<^verbatim>\<open>dt is None\<close> (an absorbing state);
  \<open>Some (dt, j)\<close> is a holding time and the index of the next state. The transition rate
  matrix of a patient is represented by the stepper built from it.
\<close>

type_synonym 'g stepper = "int \<Rightarrow> 'g \<Rightarrow> (real \<times> int) option \<times> 'g"

record 'g Patient =
  patient_id :: int
  transRateMatrix :: "'g stepper"
  stateMonitor :: PatientStateMonitor

definition Patient_init :: "int \<Rightarrow> 'g stepper \<Rightarrow> 'g Patient" where
  "Patient_init i trans_rate_matrix =
     \<lparr>patient_id = i, transRateMatrix = trans_rate_matrix,
      stateMonitor = PatientStateMonitor_init\<rparr>"

text \<open>
  The variables of \<^verbatim>\<open>Patient.simulate\<close> that change in the loop: the generator, the
  simulation time \<^verbatim>\<open>t\<close>, the flag \<^verbatim>\<open>if_stop\<close> and the patient's monitor.
\<close>

record 'g sim_state =
  rng :: 'g
  sim_t :: real
  if_stop :: bool
  monitor :: PatientStateMonitor

text \<open>
  One pass through the body of the \<^verbatim>\<open>while\<close> loop. Times are real numbers: the sum
  \<open>dt + t\<close> is exact here, where the code adds two doubles and rounds. What the statements
  below use of the clock is the loop's own comparison \<open>dt + t > sim_length\<close>, that \<open>dt + t\<close> and
  \<open>t + dt\<close> are the same number, and that \<open>dt + 0\<close> is \<open>dt\<close>; all three hold of doubles too.
  Nothing here says how often the loop can advance the clock.
\<close>

definition loop_body :: "'g stepper \<Rightarrow> real \<Rightarrow> 'g sim_state \<Rightarrow> error + 'g sim_state" where
  "loop_body G sim_length s =
     (case G (HealthStates_value (currentState (monitor s))) (rng s) of
        (None, g) \<Rightarrow> Inr (s\<lparr>rng := g, if_stop := True\<rparr>)
      | (Some (dt, new_state_index), g) \<Rightarrow>
          (if dt + sim_t s > sim_length
           then (case HealthStates_of_value (HealthStates_value (currentState (monitor s))) of
                   None \<Rightarrow> Inl ValueError
                 | Some new_state \<Rightarrow>
                     Inr (s\<lparr>rng := g, sim_t := sim_length, if_stop := True,
                            monitor := update sim_length new_state (monitor s)\<rparr>))
           else (case HealthStates_of_value new_state_index of
                   None \<Rightarrow> Inl ValueError
                 | Some new_state \<Rightarrow>
                     Inr (s\<lparr>rng := g, sim_t := sim_t s + dt,
                            monitor := update (sim_t s + dt) new_state (monitor s)\<rparr>))))"

text \<open>
  The \<^verbatim>\<open>while not if_stop\<close> loop. The source puts no bound on the number of passes, so
  the model counts them down: \<open>None\<close> means that the loop is still running after \<open>n\<close>
  passes.
\<close>

fun simulate_loop ::
  "nat \<Rightarrow> 'g stepper \<Rightarrow> real \<Rightarrow> 'g sim_state \<Rightarrow> (error + 'g sim_state) option" where
  "simulate_loop 0 G sim_length s = (if if_stop s then Some (Inr s) else None)"
| "simulate_loop (Suc n) G sim_length s =
     (if if_stop s then Some (Inr s)
      else (case loop_body G sim_length s of
              Inl e \<Rightarrow> Some (Inl e)
            | Inr s' \<Rightarrow> simulate_loop n G sim_length s'))"

text \<open>
  \<^verbatim>\<open>rng = np.random.RandomState(seed=self.id)\<close> is the first statement of
  \<^verbatim>\<open>Patient.simulate\<close>. The library accepts an integer seed from \<open>0\<close> to \<open>2^32 - 1\<close> and raises
  \<^verbatim>\<open>ValueError\<close> for any other, before the loop is entered.
\<close>

definition seed_error :: "int \<Rightarrow> error option" where
  "seed_error seed = (if 0 \<le> seed \<and> seed \<le> 2 ^ 32 - 1 then None else Some ValueError)"

text \<open>
  The state on entry to the loop, once the generator is seeded: \<open>RandomState (patient_id p)\<close>
  is the generator that the library returns for the seed (the seeding function
  \<open>RandomState\<close> is a parameter), \<^verbatim>\<open>t = 0\<close>, \<^verbatim>\<open>if_stop = False\<close>.
\<close>

definition simulate_start :: "(int \<Rightarrow> 'g) \<Rightarrow> 'g Patient \<Rightarrow> 'g sim_state" where
  "simulate_start RandomState p =
     \<lparr>rng = RandomState (patient_id p), sim_t = 0, if_stop = False,
      monitor = stateMonitor p\<rparr>"

definition Patient_simulate ::
  "nat \<Rightarrow> (int \<Rightarrow> 'g) \<Rightarrow> real \<Rightarrow> 'g Patient \<Rightarrow> (error + 'g Patient) option" where
  "Patient_simulate n RandomState sim_length p =
     (case seed_error (patient_id p) of
        Some e \<Rightarrow> Some (Inl e)
      | None \<Rightarrow>
          (case simulate_loop n (transRateMatrix p) sim_length (simulate_start RandomState p) of
             None \<Rightarrow> None
           | Some (Inl e) \<Rightarrow> Some (Inl e)
           | Some (Inr s) \<Rightarrow> Some (Inr (p\<lparr>stateMonitor := monitor s\<rparr>))))"

text \<open>The state after at most \<open>k\<close> passes through the loop body.\<close>

fun iterate_body :: "nat \<Rightarrow> 'g stepper \<Rightarrow> real \<Rightarrow> 'g sim_state \<Rightarrow> error + 'g sim_state" where
  "iterate_body 0 G sim_length s = Inr s"
| "iterate_body (Suc k) G sim_length s =
     (if if_stop s then Inr s
      else (case loop_body G sim_length s of
              Inl e \<Rightarrow> Inl e
            | Inr s' \<Rightarrow> iterate_body k G sim_length s'))"

text \<open>
  The sampled transitions that the loop applies in at most \<open>n\<close> passes, each with the time
  at which it takes place: the passes that take the \<^verbatim>\<open>t += dt\<close> branch. The pass that
  advances the time to the end of the simulation applies no transition.
\<close>

fun applied_transitions ::
  "nat \<Rightarrow> 'g stepper \<Rightarrow> real \<Rightarrow> 'g sim_state \<Rightarrow> (real \<times> HealthStates) list" where
  "applied_transitions 0 G sim_length s = []"
| "applied_transitions (Suc n) G sim_length s =
     (if if_stop s then []
      else (case G (HealthStates_value (currentState (monitor s))) (rng s) of
              (None, g) \<Rightarrow> []
            | (Some (dt, new_state_index), g) \<Rightarrow>
                (if dt + sim_t s > sim_length then []
                 else (case HealthStates_of_value new_state_index of
                         None \<Rightarrow> []
                       | Some new_state \<Rightarrow>
                           (sim_t s + dt, new_state) #
                           applied_transitions n G sim_length
                             (s\<lparr>rng := g, sim_t := sim_t s + dt,
                                monitor := update (sim_t s + dt) new_state (monitor s)\<rparr>)))))"

section \<open>Cohort outcomes\<close>

text \<open>
  The object \<^verbatim>\<open>Path.PrevalencePathBatchUpdate\<close> as the source constructs it: the
  arguments of the constructor.
\<close>

record PrevalencePathBatchUpdate =
  name :: string
  initial_size :: int
  times_of_changes :: "real list"
  increments :: "int list"

record CohortOutcomes =
  survivalTimes :: "real list"
  nTotalStrokes :: "int list"
  nLivingPatients :: "PrevalencePathBatchUpdate option"
  meanSurvivalTime :: "real option"
  meanNumOfStrokes :: "real option"

definition CohortOutcomes_init :: CohortOutcomes where
  "CohortOutcomes_init =
     \<lparr>survivalTimes = [], nTotalStrokes = [], nLivingPatients = None,
      meanSurvivalTime = None, meanNumOfStrokes = None\<rparr>"

definition extract_outcome :: "'g Patient \<Rightarrow> CohortOutcomes \<Rightarrow> CohortOutcomes" where
  "extract_outcome simulated_patient co =
     (let co1 = (case survivalTime (stateMonitor simulated_patient) of
                   None \<Rightarrow> co
                 | Some v \<Rightarrow> co\<lparr>survivalTimes := survivalTimes co @ [v]\<rparr>)
      in co1\<lparr>nTotalStrokes := nTotalStrokes co1 @ [nStrokes (stateMonitor simulated_patient)]\<rparr>)"

text \<open>
  An exception leaves the object as it is when the exception is raised: the error carries
  that state. The right-hand side of an assignment is evaluated before the attribute is
  set, so a division by zero sets nothing.
\<close>

definition calculate_cohort_outcomes ::
  "int \<Rightarrow> CohortOutcomes \<Rightarrow> (error \<times> CohortOutcomes) + CohortOutcomes" where
  "calculate_cohort_outcomes initial_pop_size co =
     (if length (survivalTimes co) = 0 then Inl (ZeroDivisionError, co)
      else
        (let co1 = co\<lparr>meanSurvivalTime :=
                        Some (sum_list (survivalTimes co) / real (length (survivalTimes co)))\<rparr>
         in if length (nTotalStrokes co1) = 0 then Inl (ZeroDivisionError, co1)
            else
              (let co2 = co1\<lparr>meanNumOfStrokes :=
                               Some (real_of_int (sum_list (nTotalStrokes co1)) /
                                     real (length (nTotalStrokes co1)))\<rparr>
               in Inr (co2\<lparr>nLivingPatients :=
                             Some \<lparr>name = ''# of living patients'',
                                   initial_size = initial_pop_size,
                                   times_of_changes = survivalTimes co2,
                                   increments = replicate (length (survivalTimes co2)) (- 1)\<rparr>\<rparr>))))"

text \<open>
  Modelled from the spec: the sample path that \<^verbatim>\<open>PrevalencePathBatchUpdate\<close> computes
  from its arguments, in the module \<^verbatim>\<open>SimPy.SamplePath\<close> that is not available. The spec: the curve
  "starts at initial_pop_size at time 0; at each recorded survival time (sorted
  ascending), the living count decrements by 1 (each death time contributes exactly one
  decrement, applied in non-decreasing time order; ties at the same timestamp all apply,
  in any order, at that timestamp)"; it is "representable as an ordered sequence of
  (time, livingCount) breakpoints".
\<close>

fun record_increments :: "int \<Rightarrow> (real \<times> int) list \<Rightarrow> (real \<times> int) list" where
  "record_increments v [] = []"
| "record_increments v ((tm, d) # xs) = (tm, v + d) # record_increments (v + d) xs"

definition survival_curve :: "PrevalencePathBatchUpdate \<Rightarrow> (real \<times> int) list" where
  "survival_curve p =
     (0, initial_size p) #
     record_increments (initial_size p)
       (sort_key fst (zip (times_of_changes p) (increments p)))"

section \<open>The cohort\<close>

record 'g Cohort =
  cohort_id :: int
  popSize :: int
  cohort_transRateMatrix :: "'g stepper"
  cohortOutcomes :: CohortOutcomes

definition Cohort_init :: "int \<Rightarrow> int \<Rightarrow> 'g stepper \<Rightarrow> 'g Cohort" where
  "Cohort_init i pop_size trans_rate_matrix =
     \<lparr>cohort_id = i, popSize = pop_size, cohort_transRateMatrix = trans_rate_matrix,
      cohortOutcomes = CohortOutcomes_init\<rparr>"

text \<open>
  The \<^verbatim>\<open>for i in range(self.popSize)\<close> loop over the indices still to come. Every patient
  gets the same bound \<open>n\<close> on the passes of its own loop.
\<close>

fun populate_and_simulate ::
  "nat \<Rightarrow> (int \<Rightarrow> 'g) \<Rightarrow> real \<Rightarrow> 'g Cohort \<Rightarrow> int list \<Rightarrow> CohortOutcomes \<Rightarrow>
   ((error \<times> CohortOutcomes) + CohortOutcomes) option" where
  "populate_and_simulate n RandomState sim_length c [] co = Some (Inr co)"
| "populate_and_simulate n RandomState sim_length c (i # is) co =
     (case Patient_simulate n RandomState sim_length
             (Patient_init (cohort_id c * popSize c + i) (cohort_transRateMatrix c)) of
        None \<Rightarrow> None
      | Some (Inl e) \<Rightarrow> Some (Inl (e, co))
      | Some (Inr patient) \<Rightarrow>
          populate_and_simulate n RandomState sim_length c is (extract_outcome patient co))"

definition Cohort_simulate ::
  "nat \<Rightarrow> (int \<Rightarrow> 'g) \<Rightarrow> real \<Rightarrow> 'g Cohort \<Rightarrow>
   ((error \<times> CohortOutcomes) + CohortOutcomes) option" where
  "Cohort_simulate n RandomState sim_length c =
     (case populate_and_simulate n RandomState sim_length c
             (map int [0 ..< nat (popSize c)]) (cohortOutcomes c) of
        None \<Rightarrow> None
      | Some (Inl e) \<Rightarrow> Some (Inl e)
      | Some (Inr co) \<Rightarrow> Some (calculate_cohort_outcomes (popSize c) co))"

section \<open>Example steppers\<close>

text \<open>
  Steppers for concrete runs. The generator is a counter of the draws made; the sampled
  values are fixed by the current state, so each run below can be traced by hand.
\<close>

definition seed_nat :: "int \<Rightarrow> nat" where
  "seed_nat i = nat i"

text \<open>WELL to STROKE after 2; STROKE back to WELL after 100; the death states absorb.\<close>

definition stroke_stepper :: "nat stepper" where
  "stroke_stepper i g =
     (if i = 0 then (Some (2, 1), Suc g)
      else if i = 1 then (Some (100, 0), Suc g)
      else (None, g))"

text \<open>WELL to STROKE after 2; STROKE to STROKE_DEAD after 3; the death states absorb.\<close>

definition death_stepper :: "nat stepper" where
  "death_stepper i g =
     (if i = 0 then (Some (2, 1), Suc g)
      else if i = 1 then (Some (3, 2), Suc g)
      else (None, g))"

text \<open>
  A rate matrix with a positive rate out of STROKE_DEAD: WELL to STROKE_DEAD after 2,
  STROKE_DEAD to NATURAL_DEATH after 3.
\<close>

definition restless_stepper :: "nat stepper" where
  "restless_stepper i g =
     (if i = 0 then (Some (2, 2), Suc g)
      else if i = 2 then (Some (3, 3), Suc g)
      else (None, g))"



text \<open>Outcomes of four patients, three of whom died.\<close>

definition example_outcomes :: CohortOutcomes where
  "example_outcomes =
     \<lparr>survivalTimes = [5, 3, 5], nTotalStrokes = [2, 1, 2, 0], nLivingPatients = None,
      meanSurvivalTime = None, meanNumOfStrokes = None\<rparr>"

section \<open>Predicates of the statements\<close>

text \<open>The death states, as \<^verbatim>\<open>update\<close> tests them.\<close>

definition is_death :: "HealthStates \<Rightarrow> bool" where
  "is_death d \<longleftrightarrow> d = STROKE_DEAD \<or> d = NATURAL_DEATH"

text \<open>The death states are absorbing: the stepper returns no holding time in them.\<close>

definition death_absorbing :: "'g stepper \<Rightarrow> bool" where
  "death_absorbing G \<longleftrightarrow>
     (\<forall>g. fst (G (HealthStates_value STROKE_DEAD) g) = None) \<and>
     (\<forall>g. fst (G (HealthStates_value NATURAL_DEATH) g) = None)"

text \<open>
  The relation between the monitor and the clock that the loop keeps when the death
  states are absorbing: a patient in a death state has its survival time set to the
  current time, which is within the horizon; any other patient has none.
\<close>

definition survival_inv :: "real \<Rightarrow> 'g sim_state \<Rightarrow> bool" where
  "survival_inv L s \<longleftrightarrow>
     (if is_death (currentState (monitor s))
      then survivalTime (monitor s) = Some (sim_t s) \<and> sim_t s \<le> L
      else survivalTime (monitor s) = None)"

definition holding_times_positive :: "'g stepper \<Rightarrow> bool" where
  "holding_times_positive G \<longleftrightarrow> (\<forall>i g dt j g'. G i g = (Some (dt, j), g') \<longrightarrow> 0 < dt)"

text \<open>The state of the outcomes object after a call, whether it returned or raised.\<close>

definition outcomes_after :: "(error \<times> CohortOutcomes) + CohortOutcomes \<Rightarrow> CohortOutcomes" where
  "outcomes_after r = (case r of Inl (e, co) \<Rightarrow> co | Inr co \<Rightarrow> co)"

section \<open>Basic facts\<close>

lemma HealthStates_of_value_value [simp]:
  "HealthStates_of_value (HealthStates_value s) = Some s"
  by (cases s) (simp_all add: HealthStates_of_value_def)

lemma currentState_update [simp]: "currentState (update tm d m) = d"
  by (simp add: update_def Let_def)

lemma survivalTime_update:
  "survivalTime (update tm d m) =
     (if d = STROKE_DEAD \<or> d = NATURAL_DEATH then Some tm else survivalTime m)"
  by (simp add: update_def Let_def)

lemma nStrokes_update:
  "nStrokes (update tm d m) =
     (if d = STROKE \<or> d = STROKE_DEAD then nStrokes m + 1 else nStrokes m)"
  by (simp add: update_def Let_def)

text \<open>The ways through the loop body.\<close>

lemma loop_body_absorbing:
  "G (HealthStates_value (currentState (monitor s))) (rng s) = (None, g) \<Longrightarrow>
   loop_body G L s = Inr (s\<lparr>rng := g, if_stop := True\<rparr>)"
  by (simp add: loop_body_def)

lemma loop_body_beyond:
  "G (HealthStates_value (currentState (monitor s))) (rng s) = (Some (dt, j), g) \<Longrightarrow>
   dt + sim_t s > L \<Longrightarrow>
   loop_body G L s =
     Inr (s\<lparr>rng := g, sim_t := L, if_stop := True,
            monitor := update L (currentState (monitor s)) (monitor s)\<rparr>)"
  by (simp add: loop_body_def)

lemma loop_body_event:
  "G (HealthStates_value (currentState (monitor s))) (rng s) = (Some (dt, j), g) \<Longrightarrow>
   \<not> dt + sim_t s > L \<Longrightarrow>
   loop_body G L s =
     (case HealthStates_of_value j of
        None \<Rightarrow> Inl ValueError
      | Some d \<Rightarrow> Inr (s\<lparr>rng := g, sim_t := sim_t s + dt,
                          monitor := update (sim_t s + dt) d (monitor s)\<rparr>))"
  by (simp add: loop_body_def)

lemma loop_body_cases:
  obtains (absorbing) g where "loop_body G L s = Inr (s\<lparr>rng := g, if_stop := True\<rparr>)"
      "fst (G (HealthStates_value (currentState (monitor s))) (rng s)) = None"
  | (beyond) dt j g where
      "G (HealthStates_value (currentState (monitor s))) (rng s) = (Some (dt, j), g)"
      "dt + sim_t s > L"
      "loop_body G L s = Inr (s\<lparr>rng := g, sim_t := L, if_stop := True,
            monitor := update L (currentState (monitor s)) (monitor s)\<rparr>)"
  | (invalid) dt j g where
      "G (HealthStates_value (currentState (monitor s))) (rng s) = (Some (dt, j), g)"
      "\<not> dt + sim_t s > L" "loop_body G L s = Inl ValueError"
  | (event) dt j g d where
      "G (HealthStates_value (currentState (monitor s))) (rng s) = (Some (dt, j), g)"
      "\<not> dt + sim_t s > L" "HealthStates_of_value j = Some d"
      "loop_body G L s = Inr (s\<lparr>rng := g, sim_t := sim_t s + dt,
                          monitor := update (sim_t s + dt) d (monitor s)\<rparr>)"
proof (cases "G (HealthStates_value (currentState (monitor s))) (rng s)")
  case (Pair x g)
  show ?thesis
  proof (cases x)
    case None
    with Pair show ?thesis
      by (intro absorbing [of g]) (simp_all add: loop_body_absorbing)
  next
    case (Some a)
    obtain dt j where a: "a = (dt, j)" by (cases a)
    show ?thesis
    proof (cases "dt + sim_t s > L")
      case True
      with Pair Some a show ?thesis
        by (intro beyond [of dt j g]) (simp_all add: loop_body_beyond)
    next
      case False
      show ?thesis
      proof (cases "HealthStates_of_value j")
        case None
        with Pair Some a False show ?thesis
          by (intro invalid [of dt j g]) (simp_all add: loop_body_event)
      next
        case (Some d)
        with Pair \<open>x = Some a\<close> a False show ?thesis
          by (intro event [of dt j g d]) (simp_all add: loop_body_event)
      qed
    qed
  qed
qed

lemma simulate_loop_stopped: "if_stop s \<Longrightarrow> simulate_loop n G L s = Some (Inr s)"
  by (cases n) simp_all

lemma simulate_loop_final:
  "simulate_loop n G L s = Some (Inr s') \<Longrightarrow> if_stop s'"
proof (induction n arbitrary: s)
  case 0
  then show ?case by (simp split: if_splits)
next
  case (Suc n)
  then show ?case by (auto split: if_splits sum.splits)
qed

text \<open>A run of the loop that returns is a sequence of passes through the body.\<close>

lemma iterate_body_stopped: "if_stop s \<Longrightarrow> iterate_body k G L s = Inr s"
  by (cases k) simp_all

lemma simulate_loop_iterate_body:
  "simulate_loop n G L s = Some r \<Longrightarrow> iterate_body n G L s = r"
proof (induction n arbitrary: s)
  case 0
  then show ?case by (simp split: if_splits)
next
  case (Suc n)
  then show ?case by (auto split: if_splits sum.splits)
qed

lemma iterate_body_add:
  "iterate_body j G L s = Inr sj \<Longrightarrow> iterate_body (j + d) G L s = iterate_body d G L sj"
proof (induction j arbitrary: s)
  case 0
  then show ?case by simp
next
  case (Suc j)
  show ?case
  proof (cases "if_stop s")
    case True
    with Suc.prems have "sj = s" by simp
    with True show ?thesis by (simp add: iterate_body_stopped)
  next
    case False
    with Suc.prems obtain s1 where b: "loop_body G L s = Inr s1"
      and r: "iterate_body j G L s1 = Inr sj"
      by (auto split: sum.splits)
    from Suc.IH [OF r] b False show ?thesis by simp
  qed
qed

section \<open>Stroke count\<close>

text \<open>
  Claim C1. At the end of \<^verbatim>\<open>Patient.simulate\<close> the monitor's \<^verbatim>\<open>nStrokes\<close> should equal the
  number of sampled transitions into STROKE or STROKE_DEAD that the run applied. The run
  below shows the count going one beyond: the patient enters STROKE at time 2 (the only
  transition applied), the next holding time of 100 passes the horizon 10, and the pass
  that advances the time to the horizon calls \<^verbatim>\<open>update\<close> with the current state STROKE,
  which counts a second stroke.
\<close>

theorem nStrokes_counts_horizon_pass:
  "map_option (map_sum id (nStrokes \<circ> stateMonitor))
     (Patient_simulate 5 seed_nat 10 (Patient_init 7 stroke_stepper)) = Some (Inr 2)
   \<and> applied_transitions 5 stroke_stepper 10
       (simulate_start seed_nat (Patient_init 7 stroke_stepper)) = [(2, STROKE)]"
  by (simp add: Patient_simulate_def seed_error_def simulate_start_def Patient_init_def
      PatientStateMonitor_init_def loop_body_def stroke_stepper_def seed_nat_def
      HealthStates_of_value_def update_def eval_nat_numeral)

section \<open>The pass that reaches the horizon\<close>

text \<open>
  Claim C2. When the sampled holding time passes the horizon (\<open>dt + t > sim_length\<close>), the
  loop sets \<open>t\<close> to \<open>sim_length\<close>, calls \<^verbatim>\<open>update\<close> once, with that time and the state the
  patient was in, and stops. The sampled destination \<open>j\<close> does not occur in the result,
  and no transition is applied.
\<close>

theorem horizon_clamp:
  assumes "G (HealthStates_value (currentState (monitor s))) (rng s) = (Some (dt, j), g)"
    and "dt + sim_t s > L" and "\<not> if_stop s"
  shows "simulate_loop (Suc n) G L s =
           Some (Inr (s\<lparr>rng := g, sim_t := L, if_stop := True,
                        monitor := update L (currentState (monitor s)) (monitor s)\<rparr>))
         \<and> applied_transitions (Suc n) G L s = []"
proof -
  let ?s' = "s\<lparr>rng := g, sim_t := L, if_stop := True,
                monitor := update L (currentState (monitor s)) (monitor s)\<rparr>"
  have body: "loop_body G L s = Inr ?s'"
    using assms(1,2) by (rule loop_body_beyond)
  have "simulate_loop n G L ?s' = Some (Inr ?s')"
    by (simp add: simulate_loop_stopped)
  with body assms(3) have "simulate_loop (Suc n) G L s = Some (Inr ?s')"
    by simp
  moreover have "applied_transitions (Suc n) G L s = []"
    using assms by simp
  ultimately show ?thesis by simp
qed

theorem horizon_clamp_witness:
  "stroke_stepper (HealthStates_value STROKE) 1 = (Some (100, 0), 2)
   \<and> (100::real) + 2 > 10
   \<and> simulate_loop 3 stroke_stepper 10
       \<lparr>rng = 1, sim_t = 2, if_stop = False,
        monitor = \<lparr>currentState = STROKE, survivalTime = None, nStrokes = 1\<rparr>\<rparr> =
     Some (Inr \<lparr>rng = 2, sim_t = 10, if_stop = True,
                monitor = \<lparr>currentState = STROKE, survivalTime = None, nStrokes = 2\<rparr>\<rparr>)"
  using horizon_clamp [of stroke_stepper
      "\<lparr>rng = 1, sim_t = 2, if_stop = False,
        monitor = \<lparr>currentState = STROKE, survivalTime = None, nStrokes = 1\<rparr>\<rparr>"
      100 0 2 10 2]
  by (simp add: stroke_stepper_def update_def eval_nat_numeral)

section \<open>Survival time\<close>

lemma death_absorbingD:
  "death_absorbing G \<Longrightarrow> is_death d \<Longrightarrow> \<exists>g'. G (HealthStates_value d) g = (None, g')"
  unfolding death_absorbing_def is_death_def
  by (metis prod.collapse)

text \<open>In an absorbing death state the loop stops and leaves the time and the monitor.\<close>

lemma simulate_loop_in_death:
  assumes "death_absorbing G" "is_death (currentState (monitor s))"
    "simulate_loop n G L s = Some (Inr s')"
  shows "sim_t s' = sim_t s \<and> monitor s' = monitor s"
proof (cases "if_stop s")
  case True
  with assms(3) show ?thesis by (simp add: simulate_loop_stopped)
next
  case False
  from death_absorbingD [OF assms(1,2)] obtain g'
    where g: "G (HealthStates_value (currentState (monitor s))) (rng s) = (None, g')"
    by blast
  show ?thesis
  proof (cases n)
    case 0
    with False assms(3) show ?thesis by simp
  next
    case (Suc m)
    from g have "loop_body G L s = Inr (s\<lparr>rng := g', if_stop := True\<rparr>)"
      by (rule loop_body_absorbing)
    with Suc False assms(3) have "s' = s\<lparr>rng := g', if_stop := True\<rparr>"
      by (simp add: simulate_loop_stopped)
    then show ?thesis by simp
  qed
qed

lemma applied_transitions_in_death:
  assumes "death_absorbing G" "is_death (currentState (monitor s))"
  shows "applied_transitions n G L s = []"
proof -
  from death_absorbingD [OF assms] obtain g'
    where g: "G (HealthStates_value (currentState (monitor s))) (rng s) = (None, g')"
    by blast
  then show ?thesis by (cases n) simp_all
qed

lemma loop_body_survival_inv:
  assumes "death_absorbing G" "survival_inv L s" "loop_body G L s = Inr s'"
  shows "survival_inv L s'"
proof (cases "G (HealthStates_value (currentState (monitor s))) (rng s)")
  case (Pair r g)
  show ?thesis
  proof (cases r)
    case None
    with Pair have "loop_body G L s = Inr (s\<lparr>rng := g, if_stop := True\<rparr>)"
      by (simp add: loop_body_absorbing)
    with assms(3) have "s' = s\<lparr>rng := g, if_stop := True\<rparr>"
      by simp
    with assms(2) show ?thesis
      by (simp add: survival_inv_def)
  next
    case (Some a)
    obtain dt j where a: "a = (dt, j)" by (cases a)
    have nd: "\<not> is_death (currentState (monitor s))"
      using death_absorbingD [OF assms(1), of "currentState (monitor s)" "rng s"] Pair Some
      by auto
    show ?thesis
    proof (cases "dt + sim_t s > L")
      case True
      with Pair Some a have "loop_body G L s = Inr (s\<lparr>rng := g, sim_t := L, if_stop := True,
            monitor := update L (currentState (monitor s)) (monitor s)\<rparr>)"
        by (simp add: loop_body_beyond)
      with assms(3) have "s' = s\<lparr>rng := g, sim_t := L, if_stop := True,
            monitor := update L (currentState (monitor s)) (monitor s)\<rparr>"
        by simp
      with nd assms(2) show ?thesis
        by (simp add: survival_inv_def survivalTime_update is_death_def)
    next
      case False
      with Pair Some a assms(3) obtain d where "HealthStates_of_value j = Some d"
        and "s' = s\<lparr>rng := g, sim_t := sim_t s + dt,
                          monitor := update (sim_t s + dt) d (monitor s)\<rparr>"
        by (auto simp: loop_body_event split: option.splits)
      with nd assms(2) False show ?thesis
        by (simp add: survival_inv_def survivalTime_update is_death_def)
    qed
  qed
qed

lemma simulate_loop_survival_inv:
  "death_absorbing G \<Longrightarrow> survival_inv L s \<Longrightarrow> simulate_loop n G L s = Some (Inr s') \<Longrightarrow>
   survival_inv L s'"
proof (induction n arbitrary: s)
  case 0
  then show ?case by (simp split: if_splits)
next
  case (Suc n)
  show ?case
  proof (cases "if_stop s")
    case True
    with Suc.prems show ?thesis by simp
  next
    case False
    with Suc.prems(3) obtain s1 where b: "loop_body G L s = Inr s1"
      and r: "simulate_loop n G L s1 = Some (Inr s')"
      by (auto split: sum.splits)
    from loop_body_survival_inv [OF Suc.prems(1,2) b] have "survival_inv L s1" .
    from Suc.IH [OF Suc.prems(1) this r] show ?thesis .
  qed
qed

lemma simulate_loop_last_transition:
  "death_absorbing G \<Longrightarrow> \<not> is_death (currentState (monitor s)) \<Longrightarrow>
   simulate_loop n G L s = Some (Inr s') \<Longrightarrow> is_death (currentState (monitor s')) \<Longrightarrow>
   applied_transitions n G L s \<noteq> [] \<and>
   last (applied_transitions n G L s) = (sim_t s', currentState (monitor s'))"
proof (induction n arbitrary: s)
  case 0
  then show ?case by (auto split: if_splits)
next
  case (Suc n)
  have ns: "\<not> if_stop s"
    using Suc.prems by (auto split: if_splits)
  with Suc.prems(3) obtain s1 where b: "loop_body G L s = Inr s1"
    and r: "simulate_loop n G L s1 = Some (Inr s')"
    by (auto split: sum.splits)
  obtain x g where Pair: "G (HealthStates_value (currentState (monitor s))) (rng s) = (x, g)"
    by (cases "G (HealthStates_value (currentState (monitor s))) (rng s)")
  show ?case
  proof (cases x)
    case None
    with Pair b have s1: "s1 = s\<lparr>rng := g, if_stop := True\<rparr>"
      by (simp add: loop_body_absorbing)
    with r have "s' = s1"
      by (simp add: simulate_loop_stopped)
    with s1 Suc.prems(2,4) show ?thesis
      by simp
  next
    case (Some a)
    obtain dt j where a: "a = (dt, j)" by (cases a)
    show ?thesis
    proof (cases "dt + sim_t s > L")
      case True
      with Pair Some a b have s1: "s1 = s\<lparr>rng := g, sim_t := L, if_stop := True,
            monitor := update L (currentState (monitor s)) (monitor s)\<rparr>"
        by (simp add: loop_body_beyond)
      with r have "s' = s1"
        by (simp add: simulate_loop_stopped)
      with s1 Suc.prems(2,4) show ?thesis
        by simp
    next
      case False
      with Pair Some a b obtain d where d: "HealthStates_of_value j = Some d"
        and s1: "s1 = s\<lparr>rng := g, sim_t := sim_t s + dt,
                          monitor := update (sim_t s + dt) d (monitor s)\<rparr>"
        by (auto simp: loop_body_event split: option.splits)
      have app: "applied_transitions (Suc n) G L s =
                   (sim_t s + dt, d) # applied_transitions n G L s1"
        using ns Pair Some a False d s1 by simp
      show ?thesis
      proof (cases "is_death d")
        case True
        then have ds1: "is_death (currentState (monitor s1))"
          using s1 by simp
        from simulate_loop_in_death [OF Suc.prems(1) ds1 r]
        have "sim_t s' = sim_t s + dt" "currentState (monitor s') = d"
          using s1 by simp_all
        moreover have "applied_transitions n G L s1 = []"
          using Suc.prems(1) ds1 by (rule applied_transitions_in_death)
        ultimately show ?thesis using app by simp
      next
        case False
        then have "\<not> is_death (currentState (monitor s1))"
          using s1 by simp
        from Suc.IH [OF Suc.prems(1) this r Suc.prems(4)] app show ?thesis
          by simp
      qed
    qed
  qed
qed

text \<open>
  Claim C3. For a patient simulated with a rate matrix whose death states (STROKE_DEAD,
  NATURAL_DEATH) are absorbing: if the final state is a death state, then the monitor's
  \<^verbatim>\<open>survivalTime\<close> is the time at which that state was entered, that is the time of the
  last transition the run applied, which is the transition into the final state, and it
  is at most \<open>sim_length\<close>; otherwise \<^verbatim>\<open>survivalTime\<close> is still \<open>None\<close>.
\<close>

theorem survivalTime_at_death:
  assumes "death_absorbing G"
    and "Patient_simulate n RandomState sim_length (Patient_init i G) = Some (Inr p')"
  shows "if is_death (currentState (stateMonitor p'))
         then \<exists>\<tau>. survivalTime (stateMonitor p') = Some \<tau> \<and> \<tau> \<le> sim_length \<and>
                applied_transitions n G sim_length
                  (simulate_start RandomState (Patient_init i G)) \<noteq> [] \<and>
                last (applied_transitions n G sim_length
                        (simulate_start RandomState (Patient_init i G))) =
                  (\<tau>, currentState (stateMonitor p'))
         else survivalTime (stateMonitor p') = None"
proof -
  let ?s = "simulate_start RandomState (Patient_init i G)"
  from assms(2) obtain s' where r: "simulate_loop n G sim_length ?s = Some (Inr s')"
    and p': "stateMonitor p' = monitor s'"
    by (auto simp: Patient_simulate_def Patient_init_def split: option.splits sum.splits)
  have w: "\<not> is_death (currentState (monitor ?s))"
    by (simp add: simulate_start_def Patient_init_def PatientStateMonitor_init_def is_death_def)
  then have "survival_inv sim_length ?s"
    by (simp add: survival_inv_def simulate_start_def Patient_init_def
        PatientStateMonitor_init_def)
  from simulate_loop_survival_inv [OF assms(1) this r]
  have inv: "survival_inv sim_length s'" .
  show ?thesis
  proof (cases "is_death (currentState (monitor s'))")
    case True
    with inv simulate_loop_last_transition [OF assms(1) w r True] p' show ?thesis
      by (simp add: survival_inv_def)
  next
    case False
    with inv p' show ?thesis by (simp add: survival_inv_def)
  qed
qed

theorem survivalTime_at_death_witness:
  "death_absorbing death_stepper \<and>
   map_option (map_sum id stateMonitor)
     (Patient_simulate 5 seed_nat 10 (Patient_init 4 death_stepper)) =
     Some (Inr \<lparr>currentState = STROKE_DEAD, survivalTime = Some 5, nStrokes = 2\<rparr>) \<and>
   applied_transitions 5 death_stepper 10
     (simulate_start seed_nat (Patient_init 4 death_stepper)) = [(2, STROKE), (5, STROKE_DEAD)]"
proof -
  have a: "death_absorbing death_stepper"
    by (simp add: death_absorbing_def death_stepper_def)
  have r: "Patient_simulate 5 seed_nat 10 (Patient_init 4 death_stepper) =
     Some (Inr ((Patient_init 4 death_stepper)
       \<lparr>stateMonitor := \<lparr>currentState = STROKE_DEAD, survivalTime = Some 5, nStrokes = 2\<rparr>\<rparr>))"
    by (simp add: Patient_simulate_def seed_error_def simulate_start_def Patient_init_def
      PatientStateMonitor_init_def loop_body_def death_stepper_def seed_nat_def
      HealthStates_of_value_def update_def eval_nat_numeral)
  have t: "applied_transitions 5 death_stepper 10
     (simulate_start seed_nat (Patient_init 4 death_stepper)) = [(2, STROKE), (5, STROKE_DEAD)]"
    by (simp add: simulate_start_def Patient_init_def
      PatientStateMonitor_init_def death_stepper_def seed_nat_def
      HealthStates_of_value_def update_def eval_nat_numeral)
  from survivalTime_at_death [OF a r] a r t show ?thesis
    by (simp add: is_death_def)
qed

section \<open>Mean survival time\<close>

text \<open>
  Claim C4. \<^verbatim>\<open>calculate_cohort_outcomes\<close> fails with a division by zero when the list of
  survival times is empty (no patient died), and sets no default for the mean; when the
  list is not empty, it sets \<^verbatim>\<open>meanSurvivalTime\<close> to the arithmetic mean of the recorded
  survival times.
\<close>

theorem mean_survival_time:
  "(survivalTimes co = [] \<longrightarrow>
      calculate_cohort_outcomes initial_pop_size co = Inl (ZeroDivisionError, co)) \<and>
   (survivalTimes co \<noteq> [] \<longrightarrow>
      meanSurvivalTime (outcomes_after (calculate_cohort_outcomes initial_pop_size co)) =
        Some (sum_list (survivalTimes co) / real (length (survivalTimes co))))"
  by (simp add: calculate_cohort_outcomes_def outcomes_after_def Let_def)

theorem mean_survival_time_witness:
  "calculate_cohort_outcomes 4 CohortOutcomes_init = Inl (ZeroDivisionError, CohortOutcomes_init) \<and>
   meanSurvivalTime (outcomes_after (calculate_cohort_outcomes 4 example_outcomes)) = Some (13 / 3)"
  using mean_survival_time [of CohortOutcomes_init 4] mean_survival_time [of example_outcomes 4]
  by (simp add: CohortOutcomes_init_def example_outcomes_def)

section \<open>Arguments of the cohort simulation\<close>

lemma Patient_simulate_nonpositive_horizon:
  assumes "sim_length \<le> 0" "holding_times_positive G" "seed_error i = None"
  shows "Patient_simulate (Suc n) RandomState sim_length (Patient_init i G) =
           Some (Inr (Patient_init i G))"
proof -
  let ?s = "simulate_start RandomState (Patient_init i G)"
  have ns: "\<not> if_stop ?s" and t0: "sim_t ?s = 0"
    and m: "monitor ?s = PatientStateMonitor_init"
    by (simp_all add: simulate_start_def Patient_init_def)
  have u: "update sim_length WELL PatientStateMonitor_init = PatientStateMonitor_init"
    by (simp add: update_def PatientStateMonitor_init_def)
  have "\<exists>s'. simulate_loop (Suc n) G sim_length ?s = Some (Inr s') \<and>
             monitor s' = PatientStateMonitor_init"
  proof (cases rule: loop_body_cases [of G sim_length ?s])
    case (absorbing g)
    with ns m show ?thesis by (simp add: simulate_loop_stopped)
  next
    case (beyond dt j g)
    with ns m u show ?thesis
      by (simp add: simulate_loop_stopped PatientStateMonitor_init_def)
  next
    case (invalid dt j g)
    from assms(2) invalid(1) have "0 < dt"
      unfolding holding_times_positive_def by blast
    with invalid(2) t0 assms(1) show ?thesis by simp
  next
    case (event dt j g d)
    from assms(2) event(1) have "0 < dt"
      unfolding holding_times_positive_def by blast
    with event(2) t0 assms(1) show ?thesis by simp
  qed
  with assms(3) show ?thesis
    by (auto simp: Patient_simulate_def Patient_init_def)
qed

lemma populate_nonpositive_horizon:
  assumes "sim_length \<le> 0" "holding_times_positive (cohort_transRateMatrix c)"
  shows "\<forall>k \<in> set ids. seed_error (cohort_id c * popSize c + k) = None \<Longrightarrow>
         populate_and_simulate (Suc n) RandomState sim_length c ids co =
           Some (Inr (co\<lparr>nTotalStrokes := nTotalStrokes co @ replicate (length ids) 0\<rparr>))"
proof (induction ids arbitrary: co)
  case Nil
  then show ?case by simp
next
  case (Cons k ids)
  have e: "extract_outcome (Patient_init j G) co = co\<lparr>nTotalStrokes := nTotalStrokes co @ [0]\<rparr>"
    for j and G :: "'a stepper"
    by (simp add: extract_outcome_def Patient_init_def PatientStateMonitor_init_def)
  from Cons.prems have s: "seed_error (cohort_id c * popSize c + k) = None"
    and r: "\<forall>k \<in> set ids. seed_error (cohort_id c * popSize c + k) = None"
    by simp_all
  show ?case
    using Patient_simulate_nonpositive_horizon [OF assms s, of n RandomState]
    by (simp add: Cons.IH [OF r] e replicate_append_same)
qed

text \<open>
  Claim C5, as the code behaves. \<^verbatim>\<open>Cohort.simulate\<close> checks neither argument. With a
  population size that is not positive it simulates no patient and fails with the
  division by zero of \<^verbatim>\<open>calculate_cohort_outcomes\<close>. With a \<open>sim_length\<close> that is not
  positive, positive holding times and patient ids \<^verbatim>\<open>id * popSize + i\<close> that are all valid
  seeds (from 0 to \<open>2^32 - 1\<close>), it simulates every patient, records 0 strokes and no
  survival time for each, and then fails with the same division by zero.
\<close>

theorem cohort_arguments_unchecked:
  assumes "pop_size \<le> 0 \<or>
           sim_length \<le> 0 \<and> holding_times_positive G \<and> 0 < n \<and>
           0 \<le> i * pop_size \<and> i * pop_size + pop_size \<le> 2 ^ 32"
  shows "Cohort_simulate n RandomState sim_length (Cohort_init i pop_size G) =
           Some (Inl (ZeroDivisionError,
                      CohortOutcomes_init\<lparr>nTotalStrokes := replicate (nat pop_size) 0\<rparr>))"
proof -
  have fin: "calculate_cohort_outcomes k (CohortOutcomes_init\<lparr>nTotalStrokes := xs\<rparr>) =
               Inl (ZeroDivisionError, CohortOutcomes_init\<lparr>nTotalStrokes := xs\<rparr>)" for k xs
    by (simp add: calculate_cohort_outcomes_def CohortOutcomes_init_def)
  from assms show ?thesis
  proof
    assume "pop_size \<le> 0"
    then show ?thesis
      using fin [of pop_size "[]"]
      by (simp add: Cohort_simulate_def Cohort_init_def CohortOutcomes_init_def)
  next
    assume a: "sim_length \<le> 0 \<and> holding_times_positive G \<and> 0 < n \<and>
           0 \<le> i * pop_size \<and> i * pop_size + pop_size \<le> 2 ^ 32"
    then obtain m where n: "n = Suc m" by (cases n) auto
    let ?c = "Cohort_init i pop_size G :: 'a Cohort"
    have h: "holding_times_positive (cohort_transRateMatrix ?c)"
      using a by (simp add: Cohort_init_def)
    have seeds: "\<forall>k \<in> set (map int [0 ..< nat (popSize ?c)]).
                   seed_error (cohort_id ?c * popSize ?c + k) = None"
      using a by (auto simp: Cohort_init_def seed_error_def)
    from a have "sim_length \<le> 0" by simp
    from populate_nonpositive_horizon [OF this h seeds, of m RandomState]
    show ?thesis
      using fin [of pop_size "replicate (nat pop_size) 0"]
      by (simp add: n Cohort_simulate_def Cohort_init_def CohortOutcomes_init_def)
  qed
qed

theorem cohort_arguments_unchecked_witness:
  "((0::int) \<le> 0) \<and>
   Cohort_simulate 5 seed_nat 10 (Cohort_init 1 0 death_stepper) =
     Some (Inl (ZeroDivisionError, CohortOutcomes_init)) \<and>
   (- 1 :: real) \<le> 0 \<and> holding_times_positive death_stepper \<and> (0::nat) < 5 \<and>
   (0::int) \<le> 1 * 2 \<and> (1::int) * 2 + 2 \<le> 2 ^ 32 \<and>
   Cohort_simulate 5 seed_nat (- 1) (Cohort_init 1 2 death_stepper) =
     Some (Inl (ZeroDivisionError, CohortOutcomes_init\<lparr>nTotalStrokes := [0, 0]\<rparr>))"
proof -
  have h: "holding_times_positive death_stepper"
    by (auto simp: holding_times_positive_def death_stepper_def split: if_splits)
  from cohort_arguments_unchecked [of 0 10 death_stepper 5 1 seed_nat]
    cohort_arguments_unchecked [of 2 "- 1" death_stepper 5 1 seed_nat] h
  show ?thesis
    by (simp add: CohortOutcomes_init_def eval_nat_numeral)
qed

text \<open>
  Claim C5 as it is written fails: with \<open>sim_length = -1\<close> and two patients, both
  patients are simulated (two stroke counts are recorded) before the run fails, and the
  error is the division by zero at the end of the run; with a population size of 0 the
  error is that division by zero as well.
\<close>

theorem cohort_simulates_before_failing:
  "Cohort_simulate 5 seed_nat (- 1) (Cohort_init 1 2 death_stepper) =
     Some (Inl (ZeroDivisionError,
                \<lparr>survivalTimes = [], nTotalStrokes = [0, 0], nLivingPatients = None,
                 meanSurvivalTime = None, meanNumOfStrokes = None\<rparr>)) \<and>
   Cohort_simulate 5 seed_nat 10 (Cohort_init 1 0 death_stepper) =
     Some (Inl (ZeroDivisionError,
                \<lparr>survivalTimes = [], nTotalStrokes = [], nLivingPatients = None,
                 meanSurvivalTime = None, meanNumOfStrokes = None\<rparr>))"
  by (simp add: Cohort_simulate_def Cohort_init_def CohortOutcomes_init_def extract_outcome_def
        calculate_cohort_outcomes_def
        Patient_simulate_def seed_error_def simulate_start_def Patient_init_def
        PatientStateMonitor_init_def loop_body_def death_stepper_def seed_nat_def
        HealthStates_of_value_def update_def eval_nat_numeral)

text \<open>
  With a cohort id of \<open>-1\<close> the first patient id is \<open>-2\<close>, which the generator refuses:
  the run fails with \<^verbatim>\<open>ValueError\<close> before any patient is simulated.
\<close>

lemma cohort_invalid_seed:
  "Cohort_simulate 5 seed_nat (- 1) (Cohort_init (- 1) 2 death_stepper) =
     Some (Inl (ValueError, CohortOutcomes_init))"
  by (simp add: Cohort_simulate_def Cohort_init_def CohortOutcomes_init_def
        Patient_simulate_def seed_error_def Patient_init_def eval_nat_numeral)

section \<open>The monitor along a run\<close>

lemma loop_body_nStrokes:
  assumes "loop_body G L s = Inr s'"
  shows "nStrokes (monitor s') = nStrokes (monitor s) \<or>
         nStrokes (monitor s') = nStrokes (monitor s) + 1"
  using assms
  by (auto simp: loop_body_def nStrokes_update split: prod.splits option.splits if_splits)

lemma loop_body_survivalTime_kept:
  assumes "death_absorbing G" "survival_inv L s" "loop_body G L s = Inr s'"
    "survivalTime (monitor s) = Some v"
  shows "survivalTime (monitor s') = Some v"
proof -
  from assms(2,4) have "is_death (currentState (monitor s))"
    by (auto simp: survival_inv_def split: if_splits)
  from death_absorbingD [OF assms(1) this] obtain g'
    where "G (HealthStates_value (currentState (monitor s))) (rng s) = (None, g')"
    by blast
  then have "loop_body G L s = Inr (s\<lparr>rng := g', if_stop := True\<rparr>)"
    by (rule loop_body_absorbing)
  with assms(3) have "s' = s\<lparr>rng := g', if_stop := True\<rparr>" by simp
  with assms(4) show ?thesis by simp
qed

lemma iterate_body_monitor:
  "death_absorbing G \<Longrightarrow> survival_inv L s \<Longrightarrow> iterate_body d G L s = Inr s' \<Longrightarrow>
   survival_inv L s' \<and>
   (survivalTime (monitor s) = Some v \<longrightarrow> survivalTime (monitor s') = Some v)"
proof (induction d arbitrary: s)
  case 0
  then show ?case by simp
next
  case (Suc d)
  show ?case
  proof (cases "if_stop s")
    case True
    with Suc.prems show ?thesis by simp
  next
    case False
    with Suc.prems(3) obtain s1 where b: "loop_body G L s = Inr s1"
      and r: "iterate_body d G L s1 = Inr s'"
      by (auto split: sum.splits)
    from loop_body_survival_inv [OF Suc.prems(1,2) b] have i1: "survival_inv L s1" .
    from Suc.IH [OF Suc.prems(1) i1 r] loop_body_survivalTime_kept [OF Suc.prems(1,2) b]
    show ?thesis by simp
  qed
qed

lemma iterate_body_nStrokes_mono:
  "iterate_body d G L s = Inr s' \<Longrightarrow> nStrokes (monitor s) \<le> nStrokes (monitor s')"
proof (induction d arbitrary: s)
  case 0
  then show ?case by simp
next
  case (Suc d)
  show ?case
  proof (cases "if_stop s")
    case True
    with Suc.prems show ?thesis by simp
  next
    case False
    with Suc.prems obtain s1 where b: "loop_body G L s = Inr s1"
      and r: "iterate_body d G L s1 = Inr s'"
      by (auto split: sum.splits)
    from Suc.IH [OF r] loop_body_nStrokes [OF b] show ?thesis by auto
  qed
qed

lemma iterate_body_one:
  "iterate_body (Suc 0) G L s = Inr s' \<Longrightarrow>
   nStrokes (monitor s') = nStrokes (monitor s) \<or>
   nStrokes (monitor s') = nStrokes (monitor s) + 1"
  by (auto split: if_splits sum.splits dest: loop_body_nStrokes)

text \<open>
  Claim C6. Let \<open>sj\<close> and \<open>sk\<close> be the states of the loop of \<^verbatim>\<open>Patient.simulate\<close> after \<open>j\<close>
  and after \<open>k \<ge> j\<close> passes from a state \<open>s0\<close>. For every rate matrix and every \<open>s0\<close>,
  \<^verbatim>\<open>nStrokes\<close> in \<open>sk\<close> is at least \<^verbatim>\<open>nStrokes\<close> in \<open>sj\<close>, and one pass changes it by 0 or
  by 1. When the death states are absorbing and \<open>s0\<close> has the monitor of a fresh patient,
  a survival time that is set in \<open>sj\<close> is the survival time in \<open>sk\<close>.
\<close>

theorem survivalTime_kept_nStrokes_steps:
  assumes "iterate_body j G L s0 = Inr sj"
    and "iterate_body k G L s0 = Inr sk"
    and "j \<le> k"
  shows "(death_absorbing G \<and> monitor s0 = PatientStateMonitor_init \<longrightarrow>
            (\<forall>v. survivalTime (monitor sj) = Some v \<longrightarrow> survivalTime (monitor sk) = Some v)) \<and>
         nStrokes (monitor sj) \<le> nStrokes (monitor sk) \<and>
         (k = Suc j \<longrightarrow> nStrokes (monitor sk) = nStrokes (monitor sj) \<or>
                         nStrokes (monitor sk) = nStrokes (monitor sj) + 1)"
proof -
  from assms(3) have "k = j + (k - j)" by simp
  with iterate_body_add [OF assms(1), of "k - j"] assms(2)
  have step: "iterate_body (k - j) G L sj = Inr sk"
    by simp
  have "survivalTime (monitor sj) = Some v \<longrightarrow> survivalTime (monitor sk) = Some v"
    if a: "death_absorbing G" and f: "monitor s0 = PatientStateMonitor_init" for v
  proof -
    from f have i0: "survival_inv L s0"
      by (simp add: survival_inv_def PatientStateMonitor_init_def is_death_def)
    from iterate_body_monitor [OF a i0 assms(1)] have ij: "survival_inv L sj"
      by simp
    from iterate_body_monitor [OF a ij step] show ?thesis
      by simp
  qed
  moreover from iterate_body_nStrokes_mono [OF step]
  have "nStrokes (monitor sj) \<le> nStrokes (monitor sk)" .
  moreover have "k = Suc j \<longrightarrow> nStrokes (monitor sk) = nStrokes (monitor sj) \<or>
                         nStrokes (monitor sk) = nStrokes (monitor sj) + 1"
    using step iterate_body_one [of G L sj sk] by auto
  ultimately show ?thesis by blast
qed

theorem survivalTime_kept_nStrokes_steps_witness:
  "iterate_body 2 death_stepper 10 (simulate_start seed_nat (Patient_init 4 death_stepper)) =
     Inr \<lparr>rng = 6, sim_t = 5, if_stop = False,
          monitor = \<lparr>currentState = STROKE_DEAD, survivalTime = Some 5, nStrokes = 2\<rparr>\<rparr> \<and>
   iterate_body 3 death_stepper 10 (simulate_start seed_nat (Patient_init 4 death_stepper)) =
     Inr \<lparr>rng = 6, sim_t = 5, if_stop = True,
          monitor = \<lparr>currentState = STROKE_DEAD, survivalTime = Some 5, nStrokes = 2\<rparr>\<rparr> \<and>
   (2::nat) \<le> 3 \<and> death_absorbing death_stepper \<and>
   monitor (simulate_start seed_nat (Patient_init 4 death_stepper)) = PatientStateMonitor_init"
proof -
  have a: "death_absorbing death_stepper"
    by (simp add: death_absorbing_def death_stepper_def)
  have b: "iterate_body 2 death_stepper 10 (simulate_start seed_nat (Patient_init 4 death_stepper)) =
     Inr \<lparr>rng = 6, sim_t = 5, if_stop = False,
          monitor = \<lparr>currentState = STROKE_DEAD, survivalTime = Some 5, nStrokes = 2\<rparr>\<rparr>"
    by (simp add: simulate_start_def Patient_init_def
      PatientStateMonitor_init_def loop_body_def death_stepper_def seed_nat_def
      HealthStates_of_value_def update_def eval_nat_numeral)
  have c: "iterate_body 3 death_stepper 10 (simulate_start seed_nat (Patient_init 4 death_stepper)) =
     Inr \<lparr>rng = 6, sim_t = 5, if_stop = True,
          monitor = \<lparr>currentState = STROKE_DEAD, survivalTime = Some 5, nStrokes = 2\<rparr>\<rparr>"
    by (simp add: simulate_start_def Patient_init_def
      PatientStateMonitor_init_def loop_body_def death_stepper_def seed_nat_def
      HealthStates_of_value_def update_def eval_nat_numeral)
  have d: "(2::nat) \<le> 3" by simp
  have f: "monitor (simulate_start seed_nat (Patient_init 4 death_stepper)) =
             PatientStateMonitor_init"
    by (simp add: simulate_start_def Patient_init_def)
  from survivalTime_kept_nStrokes_steps [OF b c d] a b c d f show ?thesis
    by blast
qed

text \<open>
  Claim C6 as it is written, for every run, fails when a death state is not absorbing:
  with a positive rate out of STROKE_DEAD the survival time 2, set on entering
  STROKE_DEAD, is replaced by 5 on entering NATURAL_DEATH.
\<close>

theorem survivalTime_overwritten:
  "map_sum id (survivalTime \<circ> monitor)
     (iterate_body 1 restless_stepper 10
        (simulate_start seed_nat (Patient_init 0 restless_stepper))) = Inr (Some 2) \<and>
   map_sum id (survivalTime \<circ> monitor)
     (iterate_body 2 restless_stepper 10
        (simulate_start seed_nat (Patient_init 0 restless_stepper))) = Inr (Some 5)"
  by (simp add: simulate_start_def Patient_init_def
      PatientStateMonitor_init_def loop_body_def restless_stepper_def seed_nat_def
      HealthStates_of_value_def update_def eval_nat_numeral)

section \<open>Patients of a cohort\<close>













section \<open>Survival curve\<close>

lemma map_fst_insort_key:
  "map f (insort_key f x xs) = insort (f x) (map f xs)"
  by (induction xs) simp_all

lemma map_fst_sort_key: "map f (sort_key f xs) = sort (map f xs)"
  by (induction xs) (simp_all add: map_fst_insort_key)

lemma length_record_increments [simp]: "length (record_increments v xs) = length xs"
  by (induction v xs rule: record_increments.induct) simp_all

lemma map_fst_record_increments [simp]: "map fst (record_increments v xs) = map fst xs"
  by (induction v xs rule: record_increments.induct) simp_all

lemma record_increments_nth:
  "\<forall>x \<in> set xs. snd x = - 1 \<Longrightarrow> k < length xs \<Longrightarrow>
   snd (record_increments v xs ! k) = v - 1 - int k"
proof (induction v xs arbitrary: k rule: record_increments.induct)
  case (1 v)
  then show ?case by simp
next
  case (2 v tm d xs)
  then show ?case by (cases k) simp_all
qed

lemma survival_curve_nth:
  assumes "increments p = replicate (length (times_of_changes p)) (- 1)"
    and "k \<le> length (times_of_changes p)"
  shows "snd (survival_curve p ! k) = initial_size p - int k"
proof (cases k)
  case 0
  then show ?thesis by (simp add: survival_curve_def)
next
  case (Suc m)
  let ?xs = "sort_key fst (zip (times_of_changes p) (increments p))"
  have "\<forall>x \<in> set ?xs. snd x = - 1"
    using assms(1) by (auto dest!: set_zip_rightD)
  moreover have "m < length ?xs"
    using assms Suc by simp
  ultimately have "snd (record_increments (initial_size p) ?xs ! m) = initial_size p - 1 - int m"
    by (rule record_increments_nth)
  with Suc show ?thesis by (simp add: survival_curve_def)
qed

lemma survival_curve_times:
  assumes "increments p = replicate (length (times_of_changes p)) (- 1)"
  shows "map fst (tl (survival_curve p)) = sort (times_of_changes p)"
  using assms by (simp add: survival_curve_def map_fst_sort_key)

text \<open>
  Claim C9. The survival curve that \<^verbatim>\<open>calculate_cohort_outcomes\<close> produces starts at
  \<open>(0, initial_pop_size)\<close>; it has one further breakpoint for each recorded survival time,
  at the survival times in ascending order; each breakpoint is 1 below the one before it;
  so the living count never increases along the curve.
\<close>

theorem survival_curve_steps:
  assumes "calculate_cohort_outcomes initial_pop_size co = Inr co'"
  shows "\<exists>p. nLivingPatients co' = Some p \<and>
             survival_curve p ! 0 = (0, initial_pop_size) \<and>
             length (survival_curve p) = Suc (length (survivalTimes co)) \<and>
             map fst (tl (survival_curve p)) = sort (survivalTimes co) \<and>
             (\<forall>k < length (survivalTimes co).
                snd (survival_curve p ! Suc k) = snd (survival_curve p ! k) - 1) \<and>
             (\<forall>j k. j \<le> k \<and> k \<le> length (survivalTimes co) \<longrightarrow>
                snd (survival_curve p ! k) \<le> snd (survival_curve p ! j))"
proof -
  let ?p = "\<lparr>name = ''# of living patients'', initial_size = initial_pop_size,
             times_of_changes = survivalTimes co,
             increments = replicate (length (survivalTimes co)) (- 1)\<rparr>"
  from assms have n: "nLivingPatients co' = Some ?p"
    by (auto simp: calculate_cohort_outcomes_def Let_def split: if_splits)
  have inc: "increments ?p = replicate (length (times_of_changes ?p)) (- 1)"
    by simp
  have nth: "snd (survival_curve ?p ! k) = initial_pop_size - int k"
    if "k \<le> length (survivalTimes co)" for k
    using survival_curve_nth [OF inc, of k] that by simp
  have "survival_curve ?p ! 0 = (0, initial_pop_size)"
    by (simp add: survival_curve_def)
  moreover have "length (survival_curve ?p) = Suc (length (survivalTimes co))"
    by (simp add: survival_curve_def)
  moreover have "map fst (tl (survival_curve ?p)) = sort (survivalTimes co)"
    using survival_curve_times [OF inc] by simp
  moreover have "\<forall>k < length (survivalTimes co).
                snd (survival_curve ?p ! Suc k) = snd (survival_curve ?p ! k) - 1"
    using nth by simp
  moreover have "\<forall>j k. j \<le> k \<and> k \<le> length (survivalTimes co) \<longrightarrow>
                snd (survival_curve ?p ! k) \<le> snd (survival_curve ?p ! j)"
    using nth by simp
  ultimately show ?thesis using n by blast
qed

theorem survival_curve_steps_witness:
  "calculate_cohort_outcomes 4 example_outcomes =
     Inr (example_outcomes\<lparr>meanSurvivalTime := Some (13 / 3), meanNumOfStrokes := Some (5 / 4),
            nLivingPatients := Some \<lparr>name = ''# of living patients'', initial_size = 4,
              times_of_changes = [5, 3, 5], increments = [- 1, - 1, - 1]\<rparr>\<rparr>) \<and>
   survival_curve \<lparr>name = ''# of living patients'', initial_size = 4,
              times_of_changes = [5, 3, 5], increments = [- 1, - 1, - 1]\<rparr> =
     [(0, 4), (3, 3), (5, 2), (5, 1)]"
proof -
  have c: "calculate_cohort_outcomes 4 example_outcomes =
     Inr (example_outcomes\<lparr>meanSurvivalTime := Some (13 / 3), meanNumOfStrokes := Some (5 / 4),
            nLivingPatients := Some \<lparr>name = ''# of living patients'', initial_size = 4,
              times_of_changes = [5, 3, 5], increments = [- 1, - 1, - 1]\<rparr>\<rparr>)"
    by (simp add: calculate_cohort_outcomes_def example_outcomes_def Let_def eval_nat_numeral)
  have v: "survival_curve \<lparr>name = ''# of living patients'', initial_size = 4,
              times_of_changes = [5, 3, 5], increments = [- 1, - 1, - 1]\<rparr> =
     [(0, 4), (3, 3), (5, 2), (5, 1)]"
    by (simp add: survival_curve_def)
  from survival_curve_steps [OF c] c v show ?thesis by simp
qed

section \<open>The outcomes object when nobody died\<close>

lemma fold_extract_outcome_derived:
  "meanSurvivalTime (fold extract_outcome ps co) = meanSurvivalTime co \<and>
   meanNumOfStrokes (fold extract_outcome ps co) = meanNumOfStrokes co \<and>
   nLivingPatients (fold extract_outcome ps co) = nLivingPatients co"
  by (induction ps arbitrary: co) (simp_all add: extract_outcome_def Let_def split: option.splits)

text \<open>
  Claim C10. When \<^verbatim>\<open>calculate_cohort_outcomes\<close> is called on an outcomes object that has
  only been filled by \<^verbatim>\<open>extract_outcome\<close> and whose list of survival times is empty, it
  raises before any assignment: the object at the raise is the object before the call, and
  \<^verbatim>\<open>meanSurvivalTime\<close>, \<^verbatim>\<open>meanNumOfStrokes\<close> and \<^verbatim>\<open>nLivingPatients\<close> still have the value
  \<open>None\<close> that \<^verbatim>\<open>__init__\<close> gave them.
\<close>

theorem no_deaths_state_unchanged:
  assumes "co = fold extract_outcome ps CohortOutcomes_init" and "survivalTimes co = []"
  shows "calculate_cohort_outcomes initial_pop_size co = Inl (ZeroDivisionError, co) \<and>
         meanSurvivalTime co = None \<and> meanNumOfStrokes co = None \<and> nLivingPatients co = None"
proof -
  from assms(2) have "calculate_cohort_outcomes initial_pop_size co = Inl (ZeroDivisionError, co)"
    by (simp add: calculate_cohort_outcomes_def)
  moreover from assms(1) fold_extract_outcome_derived [of ps CohortOutcomes_init]
  have "meanSurvivalTime co = None \<and> meanNumOfStrokes co = None \<and> nLivingPatients co = None"
    by (simp add: CohortOutcomes_init_def)
  ultimately show ?thesis by simp
qed

theorem no_deaths_state_unchanged_witness:
  "survivalTimes (fold extract_outcome [Patient_init 0 stroke_stepper, Patient_init 1 stroke_stepper]
                    CohortOutcomes_init) = [] \<and>
   calculate_cohort_outcomes 2
     (fold extract_outcome [Patient_init 0 stroke_stepper, Patient_init 1 stroke_stepper]
        CohortOutcomes_init) =
   Inl (ZeroDivisionError,
        \<lparr>survivalTimes = [], nTotalStrokes = [0, 0], nLivingPatients = None,
         meanSurvivalTime = None, meanNumOfStrokes = None\<rparr>)"
proof -
  have e: "fold extract_outcome [Patient_init 0 stroke_stepper, Patient_init 1 stroke_stepper]
        CohortOutcomes_init = \<lparr>survivalTimes = [], nTotalStrokes = [0, 0], nLivingPatients = None,
         meanSurvivalTime = None, meanNumOfStrokes = None\<rparr>"
    by (simp add: extract_outcome_def Patient_init_def PatientStateMonitor_init_def
        CohortOutcomes_init_def)
  have s: "survivalTimes (fold extract_outcome
             [Patient_init 0 stroke_stepper, Patient_init 1 stroke_stepper] CohortOutcomes_init) = []"
    unfolding e by simp
  from no_deaths_state_unchanged [OF refl s, of 2] s show ?thesis
    unfolding e by simp
qed

end
